theory Spec2Isabelle
  imports Main "HOL-Library.Sublist"
begin

section \<open>The platform the service worker runs on\<close>

text \<open>
  The offline response-cache controller is the service worker script (79 lines): three
  event listeners over the browser's \<^verbatim>\<open>caches\<close> (CacheStorage) and
  \<^verbatim>\<open>fetch\<close>. The listeners are embedded below line by line; the browser
  objects they call are modelled first, each with the rule of the Service Worker and
  Cache API it follows.
\<close>

subsection \<open>Strings\<close>

text \<open>\<^verbatim>\<open>s.startsWith(p)\<close> and \<^verbatim>\<open>s.includes(p)\<close> of JavaScript.\<close>

fun startsWith :: "string \<Rightarrow> string \<Rightarrow> bool" where
  "startsWith s [] = True"
| "startsWith [] (p # ps) = False"
| "startsWith (c # cs) (p # ps) = (c = p \<and> startsWith cs ps)"

fun includes_str :: "string \<Rightarrow> string \<Rightarrow> bool" where
  "includes_str [] p = (p = [])"
| "includes_str (c # cs) p = (startsWith (c # cs) p \<or> includes_str cs p)"

subsection \<open>Requests, responses, promises\<close>

text \<open>
  \<^verbatim>\<open>new URL(event.request.url)\<close>: the listener reads \<^verbatim>\<open>pathname\<close> and
  \<^verbatim>\<open>hostname\<close>; the query string is part of the identity of the request.
\<close>

record parsed_url =
  hostname :: string
  pathname :: string
  search :: string

record request =
  http_method :: string
  url :: parsed_url

text \<open>Of a response the model keeps the status and the body.\<close>

record response =
  status :: nat
  body :: string

text \<open>The settled state of a JavaScript promise; \<open>Pending\<close> is one that has not settled.\<close>

datatype 'a promise = Pending | Fulfilled 'a | Rejected

text \<open>
  \<^verbatim>\<open>fetch(request)\<close>: the network is a parameter. It rejects on a network error and
  fulfils with the response otherwise, whatever the status of the response.
\<close>

type_synonym network = "request \<Rightarrow> response promise"

definition ok :: "response \<Rightarrow> bool" where
  "ok r = (200 \<le> status r \<and> status r \<le> 299)"

subsection \<open>Cache and CacheStorage\<close>

text \<open>
  A Cache is a list of request/response pairs; CacheStorage \<^verbatim>\<open>caches\<close> is the list
  of named caches in creation order (the order of \<^verbatim>\<open>caches.keys()\<close>, and the order
  in which \<^verbatim>\<open>caches.match\<close> searches).
\<close>

type_synonym cache = "(request \<times> response) list"
type_synonym cache_storage = "(string \<times> cache) list"

text \<open>\<^verbatim>\<open>cache.match(request)\<close>: a request whose HTTP method is not GET matches nothing.\<close>

definition cache_match :: "cache \<Rightarrow> request \<Rightarrow> response option" where
  "cache_match c r = (if http_method r = ''GET'' then map_of c r else None)"

text \<open>
  \<^verbatim>\<open>caches.match(request)\<close>: the first match over \<^emph>\<open>all\<close> caches, in creation
  order; \<open>None\<close> is the \<^verbatim>\<open>undefined\<close> it resolves to when nothing matches.
\<close>

fun caches_match :: "cache_storage \<Rightarrow> request \<Rightarrow> response option" where
  "caches_match [] r = None"
| "caches_match ((n, c) # rest) r =
     (case cache_match c r of Some x \<Rightarrow> Some x | None \<Rightarrow> caches_match rest r)"

text \<open>\<^verbatim>\<open>caches.open(name)\<close>: creates the cache, empty, when there is none of that name.\<close>

definition caches_open :: "string \<Rightarrow> cache_storage \<Rightarrow> cache_storage" where
  "caches_open name st = (if name \<in> set (map fst st) then st else st @ [(name, [])])"

text \<open>
  \<^verbatim>\<open>cache.put(request, response)\<close> on the cache called \<open>name\<close>: replaces the entry
  of the request. It rejects, storing nothing, for a request whose HTTP method is not GET
  and for a response whose status is 206 (partial content).
\<close>

fun put_entry :: "request \<Rightarrow> response \<Rightarrow> cache \<Rightarrow> cache" where
  "put_entry r x [] = [(r, x)]"
| "put_entry r x ((k, v) # c) = (if k = r then (r, x) # c else (k, v) # put_entry r x c)"

fun cache_put :: "string \<Rightarrow> request \<Rightarrow> response \<Rightarrow> cache_storage \<Rightarrow> cache_storage" where
  "cache_put name r x [] = []"
| "cache_put name r x ((n, c) # rest) =
     (if n = name
      then (n, if http_method r = ''GET'' \<and> status x \<noteq> 206 then put_entry r x c else c) # rest
      else (n, c) # cache_put name r x rest)"

text \<open>
  \<^verbatim>\<open>caches.keys()\<close>, the names in creation order, and
  \<^verbatim>\<open>caches.delete(name)\<close>, which removes the cache of that name with all its
  entries.
\<close>

definition caches_keys :: "cache_storage \<Rightarrow> string list" where
  "caches_keys st = map fst st"

definition caches_delete :: "string \<Rightarrow> cache_storage \<Rightarrow> cache_storage" where
  "caches_delete k st = filter (\<lambda>e. fst e \<noteq> k) st"

text \<open>
  \<^verbatim>\<open>cache.addAll(urls)\<close>: fetches every URL with a GET request; it rejects, adding
  nothing, as soon as one fetch rejects or brings a response that is not ok or whose
  status is 206, and it puts all the responses otherwise.
\<close>

definition asset_request :: "string \<Rightarrow> string \<Rightarrow> request" where
  "asset_request origin path =
     \<lparr>http_method = ''GET'', url = \<lparr>hostname = origin, pathname = path, search = ''''\<rparr>\<rparr>"

fun fetch_failed :: "response promise \<Rightarrow> bool" where
  "fetch_failed Rejected = True"
| "fetch_failed (Fulfilled x) = (if status x = 206 then True else \<not> ok x)"
| "fetch_failed Pending = False"

fun put_fetched :: "string \<Rightarrow> request \<times> response promise \<Rightarrow> cache_storage \<Rightarrow> cache_storage" where
  "put_fetched name (r, Fulfilled x) st = cache_put name r x st"
| "put_fetched name (r, Pending) st = st"
| "put_fetched name (r, Rejected) st = st"

definition cache_addAll ::
  "string \<Rightarrow> string \<Rightarrow> network \<Rightarrow> string list \<Rightarrow> cache_storage \<Rightarrow> unit promise \<times> cache_storage" where
  "cache_addAll name origin net paths st =
     (let reqs = map (asset_request origin) paths;
          outs = map net reqs
      in if list_ex fetch_failed outs then (Rejected, st)
         else if Pending \<in> set outs then (Pending, st)
         else (Fulfilled (), fold (put_fetched name) (zip reqs outs) st))"

section \<open>The service worker\<close>

text \<open>
  \<^verbatim>\<open>CACHE_VERSION\<close> is a placeholder in the script that the build replaces by the
  tag of the release, so every listener takes it as a parameter.
\<close>

definition SHELL_ASSETS :: "string list" where
  "SHELL_ASSETS =
     [''/static/dist.css'',
      ''/static/icons/icon-192.png'',
      ''/static/icons/icon-512.png'',
      ''/static/icons/icon-maskable-192.png'',
      ''/static/icons/icon-maskable-512.png'',
      ''/static/domains.js'',
      ''/static/theme.js'',
      ''/static/util.js'',
      ''/static/qrcode.min.js'']"

subsection \<open>install\<close>

text \<open>
  \<^verbatim>\<open>event.waitUntil(caches.open(CACHE_VERSION).then(cache => cache.addAll(SHELL_ASSETS)));
  self.skipWaiting();\<close>
\<close>

record install_result =
  wait_until :: "unit promise"
  skip_waiting :: bool
  ir_caches :: cache_storage

definition install_listener ::
  "string \<Rightarrow> string \<Rightarrow> network \<Rightarrow> cache_storage \<Rightarrow> install_result" where
  "install_listener CACHE_VERSION origin net st =
     (let opened = caches_open CACHE_VERSION st;
          added = cache_addAll CACHE_VERSION origin net SHELL_ASSETS opened
      in \<lparr>wait_until = fst added, skip_waiting = True, ir_caches = snd added\<rparr>)"

subsection \<open>activate\<close>

text \<open>
  \<^verbatim>\<open>caches.keys().then(keys =>
    Promise.all(keys.filter(k => k !== CACHE_VERSION).map(k => caches.delete(k))))\<close>
\<close>

definition activate_listener :: "string \<Rightarrow> cache_storage \<Rightarrow> cache_storage" where
  "activate_listener CACHE_VERSION st =
     fold caches_delete (filter (\<lambda>k. k \<noteq> CACHE_VERSION) (caches_keys st)) st"

subsection \<open>fetch\<close>

text \<open>
  What a listener did: whether it called \<^verbatim>\<open>event.respondWith\<close> and with which
  promise, the calls it made on the cache and the network in order (a
  \<^verbatim>\<open>caches.match\<close> with what it resolved to), and CacheStorage once its
  fire-and-forget writes have settled.
\<close>

datatype fetch_result = PassThrough | RespondWith "response option promise"

datatype effect =
    CacheMatch request "response option"
  | NetFetch request
  | CacheOpen string
  | CachePut string request response

record handled =
  responded :: fetch_result
  trace :: "effect list"
  caches_after :: cache_storage

text \<open>
  \<^verbatim>\<open>fetch(event.request).then(response => {
    const clone = response.clone();
    caches.open(CACHE_VERSION).then(cache => cache.put(event.request, clone));
    return response; })\<close>,
  the promise both caching strategies build.
\<close>

definition fetch_and_put ::
  "string \<Rightarrow> network \<Rightarrow> request \<Rightarrow> cache_storage \<Rightarrow> response option promise \<times> effect list \<times> cache_storage" where
  "fetch_and_put CACHE_VERSION net req st =
     (case net req of
        Fulfilled resp \<Rightarrow>
          (Fulfilled (Some resp),
           [NetFetch req, CacheOpen CACHE_VERSION, CachePut CACHE_VERSION req resp],
           cache_put CACHE_VERSION req resp (caches_open CACHE_VERSION st))
      | Rejected \<Rightarrow> (Rejected, [NetFetch req], st)
      | Pending \<Rightarrow> (Pending, [NetFetch req], st))"

text \<open>
  \<^verbatim>\<open>caches.match(event.request).then(cached => {
    const fetchPromise = ...; return cached || fetchPromise; })\<close>
\<close>

definition stale_while_revalidate ::
  "string \<Rightarrow> network \<Rightarrow> request \<Rightarrow> cache_storage \<Rightarrow> handled" where
  "stale_while_revalidate CACHE_VERSION net req st =
     (let cached = caches_match st req;
          fetchPromise = fetch_and_put CACHE_VERSION net req st
      in \<lparr>responded = RespondWith
             (case cached of Some c \<Rightarrow> Fulfilled (Some c) | None \<Rightarrow> fst fetchPromise),
          trace = CacheMatch req cached # fst (snd fetchPromise),
          caches_after = snd (snd fetchPromise)\<rparr>)"

text \<open>\<^verbatim>\<open>caches.match(event.request).then(cached => cached || fetch(event.request).then(...))\<close>\<close>

definition cache_first ::
  "string \<Rightarrow> network \<Rightarrow> request \<Rightarrow> cache_storage \<Rightarrow> handled" where
  "cache_first CACHE_VERSION net req st =
     (let cached = caches_match st req
      in case cached of
           Some c \<Rightarrow>
             \<lparr>responded = RespondWith (Fulfilled (Some c)),
              trace = [CacheMatch req cached], caches_after = st\<rparr>
         | None \<Rightarrow>
             (let fetchPromise = fetch_and_put CACHE_VERSION net req st
              in \<lparr>responded = RespondWith (fst fetchPromise),
                  trace = CacheMatch req cached # fst (snd fetchPromise),
                  caches_after = snd (snd fetchPromise)\<rparr>))"

text \<open>\<^verbatim>\<open>fetch(event.request).catch(() => caches.match(event.request))\<close>\<close>

definition network_first :: "network \<Rightarrow> request \<Rightarrow> cache_storage \<Rightarrow> handled" where
  "network_first net req st =
     (case net req of
        Fulfilled resp \<Rightarrow>
          \<lparr>responded = RespondWith (Fulfilled (Some resp)),
           trace = [NetFetch req], caches_after = st\<rparr>
      | Rejected \<Rightarrow>
          \<lparr>responded = RespondWith (Fulfilled (caches_match st req)),
           trace = [NetFetch req, CacheMatch req (caches_match st req)], caches_after = st\<rparr>
      | Pending \<Rightarrow>
          \<lparr>responded = RespondWith Pending, trace = [NetFetch req], caches_after = st\<rparr>)"

text \<open>The listener itself: the four branches of the script, in its order.\<close>

definition fetch_listener ::
  "string \<Rightarrow> network \<Rightarrow> request \<Rightarrow> cache_storage \<Rightarrow> handled" where
  "fetch_listener CACHE_VERSION net req st =
     (if includes_str (pathname (url req)) ''/stream'' \<or>
         startsWith (pathname (url req)) ''/admin'' \<or>
         includes_str (pathname (url req)) ''/state'' \<or>
         includes_str (pathname (url req)) ''/command'' \<or>
         includes_str (pathname (url req)) ''/manifest.json''
      then \<lparr>responded = PassThrough, trace = [], caches_after = st\<rparr>
      else if startsWith (pathname (url req)) ''/static/''
      then stale_while_revalidate CACHE_VERSION net req st
      else if hostname (url req) = ''fonts.googleapis.com'' \<or>
              hostname (url req) = ''fonts.gstatic.com''
      then cache_first CACHE_VERSION net req st
      else network_first net req st)"

text \<open>
  What the page that issued the request receives. Without \<^verbatim>\<open>respondWith\<close> the
  browser performs the request itself; a promise that resolves to
  \<^verbatim>\<open>undefined\<close> (or rejects) reaches the page as a network error.
\<close>

fun delivered :: "network \<Rightarrow> request \<Rightarrow> fetch_result \<Rightarrow> response promise" where
  "delivered net req PassThrough = net req"
| "delivered net req (RespondWith Pending) = Pending"
| "delivered net req (RespondWith Rejected) = Rejected"
| "delivered net req (RespondWith (Fulfilled None)) = Rejected"
| "delivered net req (RespondWith (Fulfilled (Some x))) = Fulfilled x"

subsection \<open>The life cycle of a generation\<close>

text \<open>
  The browser's side of an update: the new worker's install listener runs; when the
  promise given to \<^verbatim>\<open>waitUntil\<close> fulfils, the worker is installed and, having
  called \<^verbatim>\<open>skipWaiting\<close>, is activated at once (its activate listener runs and it
  becomes the active worker). When the promise rejects the new worker is discarded, and
  while it is pending nothing changes; the active worker stays the one it was.
\<close>

record registration =
  reg_caches :: cache_storage
  active :: "string option"

definition update_worker ::
  "string \<Rightarrow> string \<Rightarrow> network \<Rightarrow> registration \<Rightarrow> registration" where
  "update_worker CACHE_VERSION origin net reg =
     (let res = install_listener CACHE_VERSION origin net (reg_caches reg)
      in case wait_until res of
           Fulfilled u \<Rightarrow>
             (if skip_waiting res
              then \<lparr>reg_caches = activate_listener CACHE_VERSION (ir_caches res),
                    active = Some CACHE_VERSION\<rparr>
              else \<lparr>reg_caches = ir_caches res, active = active reg\<rparr>)
         | Rejected \<Rightarrow> \<lparr>reg_caches = ir_caches res, active = active reg\<rparr>
         | Pending \<Rightarrow> \<lparr>reg_caches = ir_caches res, active = active reg\<rparr>)"

text \<open>A run of fetch events handled by one worker, each with the network of its moment.\<close>

fun run_fetches :: "string \<Rightarrow> (network \<times> request) list \<Rightarrow> cache_storage \<Rightarrow> cache_storage" where
  "run_fetches CACHE_VERSION [] st = st"
| "run_fetches CACHE_VERSION (ev # evs) st =
     run_fetches CACHE_VERSION evs (caches_after (fetch_listener CACHE_VERSION (fst ev) (snd ev) st))"

section \<open>The vocabulary of the specification\<close>

subsection \<open>Route classes\<close>

datatype route_class = Excluded | ShellAsset | CrossOriginCacheable | Dynamic

text \<open>The class of a URL as the branches of the fetch listener decide it.\<close>

definition classify :: "parsed_url \<Rightarrow> route_class" where
  "classify u =
     (if includes_str (pathname u) ''/stream'' \<or>
         startsWith (pathname u) ''/admin'' \<or>
         includes_str (pathname u) ''/state'' \<or>
         includes_str (pathname u) ''/command'' \<or>
         includes_str (pathname u) ''/manifest.json''
      then Excluded
      else if startsWith (pathname u) ''/static/'' then ShellAsset
      else if hostname u = ''fonts.googleapis.com'' \<or> hostname u = ''fonts.gstatic.com''
      then CrossOriginCacheable
      else Dynamic)"

text \<open>
  The classifier as the specification words it: an ordered table of predicates over the
  URL, the first that matches wins, and \<open>Dynamic\<close> is the default.
\<close>

definition live_streaming_endpoint :: "parsed_url \<Rightarrow> bool" where
  "live_streaming_endpoint u = includes_str (pathname u) ''/stream''"

definition administrative_surface :: "parsed_url \<Rightarrow> bool" where
  "administrative_surface u = startsWith (pathname u) ''/admin''"

definition state_session_endpoint :: "parsed_url \<Rightarrow> bool" where
  "state_session_endpoint u = includes_str (pathname u) ''/state''"

definition command_submission_endpoint :: "parsed_url \<Rightarrow> bool" where
  "command_submission_endpoint u = includes_str (pathname u) ''/command''"

definition application_manifest :: "parsed_url \<Rightarrow> bool" where
  "application_manifest u = includes_str (pathname u) ''/manifest.json''"

definition excluded_rule :: "parsed_url \<Rightarrow> bool" where
  "excluded_rule u =
     (live_streaming_endpoint u \<or> administrative_surface u \<or> state_session_endpoint u \<or>
      command_submission_endpoint u \<or> application_manifest u)"

definition under_static_prefix :: "parsed_url \<Rightarrow> bool" where
  "under_static_prefix u = startsWith (pathname u) ''/static/''"

definition third_party_hosts :: "string list" where
  "third_party_hosts = [''fonts.googleapis.com'', ''fonts.gstatic.com'']"

definition allow_listed_host :: "parsed_url \<Rightarrow> bool" where
  "allow_listed_host u = (hostname u \<in> set third_party_hosts)"

definition rule_table :: "((parsed_url \<Rightarrow> bool) \<times> route_class) list" where
  "rule_table =
     [(excluded_rule, Excluded),
      (under_static_prefix, ShellAsset),
      (allow_listed_host, CrossOriginCacheable)]"

definition classify_spec :: "parsed_url \<Rightarrow> route_class" where
  "classify_spec u =
     (case find (\<lambda>rule. fst rule u) rule_table of
        Some rule \<Rightarrow> snd rule
      | None \<Rightarrow> Dynamic)"

text \<open>The strategy the specification gives each class.\<close>

fun strategy ::
  "route_class \<Rightarrow> string \<Rightarrow> network \<Rightarrow> request \<Rightarrow> cache_storage \<Rightarrow> handled" where
  "strategy Excluded CACHE_VERSION net req st =
     \<lparr>responded = PassThrough, trace = [], caches_after = st\<rparr>"
| "strategy ShellAsset CACHE_VERSION net req st = stale_while_revalidate CACHE_VERSION net req st"
| "strategy CrossOriginCacheable CACHE_VERSION net req st = cache_first CACHE_VERSION net req st"
| "strategy Dynamic CACHE_VERSION net req st = network_first net req st"

subsection \<open>Stores and generations\<close>

text \<open>The store of a generation, and what that store alone holds for a request.\<close>

definition store_of :: "cache_storage \<Rightarrow> string \<Rightarrow> cache option" where
  "store_of st name = map_of st name"

definition active_lookup :: "string \<Rightarrow> cache_storage \<Rightarrow> request \<Rightarrow> response option" where
  "active_lookup CACHE_VERSION st r =
     (case store_of st CACHE_VERSION of None \<Rightarrow> None | Some c \<Rightarrow> cache_match c r)"

text \<open>What the stores created before the store of a generation hold for a request.\<close>

fun older_match :: "string \<Rightarrow> cache_storage \<Rightarrow> request \<Rightarrow> response option" where
  "older_match CACHE_VERSION [] r = None"
| "older_match CACHE_VERSION (e # rest) r =
     (if fst e = CACHE_VERSION then None
      else case cache_match (snd e) r of
             Some x \<Rightarrow> Some x
           | None \<Rightarrow> older_match CACHE_VERSION rest r)"

text \<open>The calls of a trace by kind.\<close>

fun is_cache_read :: "effect \<Rightarrow> bool" where
  "is_cache_read (CacheMatch r x) = True"
| "is_cache_read (NetFetch r) = False"
| "is_cache_read (CacheOpen n) = False"
| "is_cache_read (CachePut n r x) = False"

fun is_cache_write :: "effect \<Rightarrow> bool" where
  "is_cache_write (CacheMatch r x) = False"
| "is_cache_write (NetFetch r) = False"
| "is_cache_write (CacheOpen n) = True"
| "is_cache_write (CachePut n r x) = True"

fun is_net_fetch :: "effect \<Rightarrow> bool" where
  "is_net_fetch (CacheMatch r x) = False"
| "is_net_fetch (NetFetch r) = True"
| "is_net_fetch (CacheOpen n) = False"
| "is_net_fetch (CachePut n r x) = False"

text \<open>
  Whether a call that opens or writes a store names the given one; whether a read is the
  search over all the stores; whether a read is what the store of the given name holds.
\<close>

fun writes_only_to :: "string \<Rightarrow> effect \<Rightarrow> bool" where
  "writes_only_to name (CacheMatch r x) = True"
| "writes_only_to name (NetFetch r) = True"
| "writes_only_to name (CacheOpen n) = (n = name)"
| "writes_only_to name (CachePut n r x) = (n = name)"

fun reads_all_stores :: "cache_storage \<Rightarrow> effect \<Rightarrow> bool" where
  "reads_all_stores st (CacheMatch r x) = (x = caches_match st r)"
| "reads_all_stores st (NetFetch r) = True"
| "reads_all_stores st (CacheOpen n) = True"
| "reads_all_stores st (CachePut n r x) = True"

fun read_from :: "string \<Rightarrow> cache_storage \<Rightarrow> effect \<Rightarrow> bool" where
  "read_from name st (CacheMatch r x) = (x = active_lookup name st r)"
| "read_from name st (NetFetch r) = True"
| "read_from name st (CacheOpen n) = True"
| "read_from name st (CachePut n r x) = True"

subsection \<open>Scenarios\<close>

text \<open>Concrete requests, responses, networks and stores for the examples below.\<close>

definition get :: "string \<Rightarrow> string \<Rightarrow> request" where
  "get host path = \<lparr>http_method = ''GET'', url = \<lparr>hostname = host, pathname = path, search = ''''\<rparr>\<rparr>"

definition post :: "string \<Rightarrow> string \<Rightarrow> request" where
  "post host path = \<lparr>http_method = ''POST'', url = \<lparr>hostname = host, pathname = path, search = ''''\<rparr>\<rparr>"

definition old_bytes :: response where
  "old_bytes = \<lparr>status = 200, body = ''old''\<rparr>"

definition new_bytes :: response where
  "new_bytes = \<lparr>status = 200, body = ''new''\<rparr>"

definition partial_content :: response where
  "partial_content = \<lparr>status = 206, body = ''part''\<rparr>"

definition server_error :: response where
  "server_error = \<lparr>status = 500, body = ''error''\<rparr>"

definition offline :: network where
  "offline r = Rejected"

definition stalled :: network where
  "stalled r = Pending"

definition serving :: "response \<Rightarrow> network" where
  "serving x r = Fulfilled x"

definition css :: request where
  "css = get ''ha.local'' ''/static/dist.css''"

definition guest_page :: request where
  "guest_page = get ''ha.local'' ''/g/abc''"

definition font :: request where
  "font = get ''fonts.gstatic.com'' ''/s/font.woff2''"

definition font_post :: request where
  "font_post = post ''fonts.gstatic.com'' ''/s/font.woff2''"

text \<open>
  A store of generation v1 that its cleanup left behind, created before the store of the
  active generation v2.
\<close>

definition stale_ahead :: cache_storage where
  "stale_ahead = [(''ha-pass-v1'', [(css, old_bytes)]), (''ha-pass-v2'', [])]"

text \<open>Generation v1 installed, active, and holding the stylesheet.\<close>

definition v1_active :: registration where
  "v1_active = \<lparr>reg_caches = [(''ha-pass-v1'', [(css, old_bytes)])], active = Some ''ha-pass-v1''\<rparr>"

definition all_but_util :: network where
  "all_but_util r =
     (if pathname (url r) = ''/static/util.js'' then Rejected else Fulfilled new_bytes)"

section \<open>Facts about the platform model\<close>

text \<open>The two string functions are the prefix and the contiguous-sublist relations.\<close>

lemma startsWith_prefix: "startsWith s p = prefix p s"
  by (induction s p rule: startsWith.induct) auto

lemma includes_str_sublist: "includes_str s p = sublist p s"
  by (induction s) (auto simp add: startsWith_prefix sublist_Cons_right)

subsection \<open>Stores\<close>

lemma map_of_put_entry: "map_of (put_entry r x c) k = (if k = r then Some x else map_of c k)"
  by (induction c) auto

lemma cache_match_put_entry_same:
  "http_method r = ''GET'' \<Longrightarrow> cache_match (put_entry r x c) r = Some x"
  by (simp add: cache_match_def map_of_put_entry)

lemma cache_match_put_entry_other:
  "k \<noteq> r \<Longrightarrow> cache_match (put_entry r x c) k = cache_match c k"
  by (simp add: cache_match_def map_of_put_entry)

lemma cache_match_GET: "cache_match c r = Some x \<Longrightarrow> http_method r = ''GET''"
  by (simp add: cache_match_def split: if_splits)

lemma caches_match_GET: "caches_match st r = Some x \<Longrightarrow> http_method r = ''GET''"
  by (induction st r rule: caches_match.induct) (auto split: option.splits dest: cache_match_GET)

lemma cache_put_not_GET: "http_method r \<noteq> ''GET'' \<Longrightarrow> cache_put name r x st = st"
  by (induction st) auto

lemma cache_put_partial: "status x = 206 \<Longrightarrow> cache_put name r x st = st"
  by (induction st) auto

lemma not_ok_not_partial: "\<not> ok x \<Longrightarrow> status x \<noteq> 206"
  by (auto simp add: ok_def)

lemma store_of_cache_put:
  "store_of (cache_put name r x st) n =
     (if n = name
      then map_option
             (\<lambda>c. if http_method r = ''GET'' \<and> status x \<noteq> 206 then put_entry r x c else c)
             (store_of st n)
      else store_of st n)"
  by (induction st) (auto simp add: store_of_def)

lemma store_of_caches_open:
  "store_of (caches_open name st) n =
     (if n = name \<and> name \<notin> set (caches_keys st) then Some [] else store_of st n)"
proof -
  have "map_of (st @ [(name, [])]) n =
      (if n = name \<and> name \<notin> fst ` set st then Some [] else map_of st n)"
    by (induction st) auto
  then show ?thesis
    by (auto simp add: store_of_def caches_open_def caches_keys_def)
qed

lemma store_of_caches_open_self: "store_of (caches_open name st) name \<noteq> None"
  unfolding store_of_caches_open
  by (auto simp add: store_of_def caches_keys_def dest: weak_map_of_SomeI)

lemma caches_match_append_empty: "caches_match (st @ [(n, [])]) r = caches_match st r"
  by (induction st r rule: caches_match.induct) (auto simp add: cache_match_def split: option.splits)

lemma caches_match_caches_open: "caches_match (caches_open n st) r = caches_match st r"
  by (simp add: caches_open_def caches_match_append_empty)

lemma caches_match_cache_put_other:
  "k \<noteq> r \<Longrightarrow> caches_match (cache_put name r x st) k = caches_match st k"
  by (induction st k rule: caches_match.induct)
     (auto simp add: cache_match_put_entry_other split: option.splits)

lemma older_match_caches_open: "older_match name (caches_open name st) r = older_match name st r"
  by (induction st) (auto simp add: caches_open_def split: option.splits)

lemma caches_match_cache_put_same:
  "http_method r = ''GET'' \<Longrightarrow> status x \<noteq> 206 \<Longrightarrow> name \<in> set (caches_keys st) \<Longrightarrow>
   caches_match (cache_put name r x st) r =
     (case older_match name st r of Some y \<Rightarrow> Some y | None \<Rightarrow> Some x)"
  by (induction st) (force simp add: caches_keys_def cache_match_put_entry_same split: option.splits)+

lemma caches_open_has_key: "name \<in> set (caches_keys (caches_open name st))"
  by (simp add: caches_open_def caches_keys_def)

lemma active_lookup_put_open:
  "http_method r = ''GET'' \<Longrightarrow> status x \<noteq> 206 \<Longrightarrow>
   active_lookup name (cache_put name r x (caches_open name st)) r = Some x"
  using store_of_caches_open_self [of name st]
  by (auto simp add: active_lookup_def store_of_cache_put cache_match_put_entry_same
      split: option.splits)

lemma caches_match_put_open_same:
  "http_method r = ''GET'' \<Longrightarrow> status x \<noteq> 206 \<Longrightarrow>
   caches_match (cache_put name r x (caches_open name st)) r =
     (case older_match name st r of Some y \<Rightarrow> Some y | None \<Rightarrow> Some x)"
  by (simp add: caches_match_cache_put_same caches_open_has_key older_match_caches_open)

lemma caches_match_put_open_other:
  "k \<noteq> r \<Longrightarrow> caches_match (cache_put name r x (caches_open name st)) k = caches_match st k"
  by (simp add: caches_match_cache_put_other caches_match_caches_open)

lemma older_match_None_caches_match:
  "older_match name st r = None \<Longrightarrow> active_lookup name st r = Some x \<Longrightarrow> caches_match st r = Some x"
  by (induction st) (auto simp add: active_lookup_def store_of_def split: option.splits if_splits)

lemma sole_store_caches_match:
  "caches_keys st = [name] \<Longrightarrow> caches_match st r = active_lookup name st r"
  by (cases st) (auto simp add: caches_keys_def active_lookup_def store_of_def split: option.splits)

subsection \<open>The listener and the rule table\<close>

lemma classify_spec_eq: "classify_spec u = classify u"
  by (simp add: classify_spec_def classify_def rule_table_def excluded_rule_def
      live_streaming_endpoint_def administrative_surface_def state_session_endpoint_def
      command_submission_endpoint_def application_manifest_def under_static_prefix_def
      allow_listed_host_def third_party_hosts_def)

lemma fetch_listener_strategy:
  "fetch_listener CV net req st = strategy (classify (url req)) CV net req st"
  by (simp add: fetch_listener_def classify_def)

subsection \<open>The fetch-and-store promise\<close>

lemma fetch_and_put_Fulfilled:
  "net req = Fulfilled x \<Longrightarrow>
   fetch_and_put CV net req st =
     (Fulfilled (Some x), [NetFetch req, CacheOpen CV, CachePut CV req x],
      cache_put CV req x (caches_open CV st))"
  by (simp add: fetch_and_put_def)

lemma fetch_and_put_other:
  "k \<noteq> req \<Longrightarrow> caches_match (snd (snd (fetch_and_put CV net req st))) k = caches_match st k"
  by (cases "net req") (simp_all add: fetch_and_put_def caches_match_put_open_other)

lemma fetch_and_put_store_of:
  "n \<noteq> CV \<Longrightarrow> store_of (snd (snd (fetch_and_put CV net req st))) n = store_of st n"
  by (cases "net req") (simp_all add: fetch_and_put_def store_of_cache_put store_of_caches_open)

lemma fetch_and_put_writes:
  "list_all (writes_only_to CV) (fst (snd (fetch_and_put CV net req st)))"
  by (cases "net req") (simp_all add: fetch_and_put_def)

lemma fetch_and_put_reads:
  "list_all (reads_all_stores st') (fst (snd (fetch_and_put CV net req st)))"
  "list_all (read_from CV st') (fst (snd (fetch_and_put CV net req st)))"
  by (cases "net req"; simp add: fetch_and_put_def)+

subsection \<open>What the fetch listener does to CacheStorage\<close>

lemma fetch_listener_other_key:
  "k \<noteq> req \<Longrightarrow> caches_match (caches_after (fetch_listener CV net req st)) k = caches_match st k"
  by (cases "classify (url req)"; cases "net req")
     (auto simp add: fetch_listener_strategy stale_while_revalidate_def cache_first_def
        network_first_def Let_def fetch_and_put_other split: option.splits)

lemma fetch_listener_other_store:
  "n \<noteq> CV \<Longrightarrow> store_of (caches_after (fetch_listener CV net req st)) n = store_of st n"
  by (cases "classify (url req)"; cases "net req")
     (auto simp add: fetch_listener_strategy stale_while_revalidate_def cache_first_def
        network_first_def Let_def fetch_and_put_store_of split: option.splits)

lemma fetch_listener_writes:
  "list_all (writes_only_to CV) (trace (fetch_listener CV net req st))"
  by (cases "classify (url req)"; cases "net req")
     (auto simp add: fetch_listener_strategy stale_while_revalidate_def cache_first_def
        network_first_def Let_def fetch_and_put_writes split: option.splits)

lemma fetch_listener_reads:
  "list_all (reads_all_stores st) (trace (fetch_listener CV net req st))"
  by (cases "classify (url req)"; cases "net req")
     (auto simp add: fetch_listener_strategy stale_while_revalidate_def cache_first_def
        network_first_def Let_def fetch_and_put_reads split: option.splits)

lemma fetch_listener_reads_active:
  "caches_match st req = active_lookup CV st req \<Longrightarrow>
   list_all (read_from CV st) (trace (fetch_listener CV net req st))"
  by (cases "classify (url req)"; cases "net req")
     (auto simp add: fetch_listener_strategy stale_while_revalidate_def cache_first_def
        network_first_def Let_def fetch_and_put_reads split: option.splits)

lemma cross_origin_hit_unchanged:
  "classify (url req) = CrossOriginCacheable \<Longrightarrow> caches_match st req = Some x \<Longrightarrow>
   fetch_listener CV net req st =
     \<lparr>responded = RespondWith (Fulfilled (Some x)), trace = [CacheMatch req (Some x)],
      caches_after = st\<rparr>"
  by (simp add: fetch_listener_strategy cache_first_def Let_def)

lemma fetch_listener_keeps_cross_origin_entry:
  assumes "classify (url k) = CrossOriginCacheable" and "caches_match st k = Some x"
  shows "caches_match (caches_after (fetch_listener CV net req st)) k = Some x"
proof (cases "req = k")
  case True
  with assms show ?thesis by (simp add: cross_origin_hit_unchanged)
next
  case False
  then have "k \<noteq> req" by simp
  with assms(2) show ?thesis by (simp add: fetch_listener_other_key)
qed

lemma run_fetches_keeps_cross_origin_entry:
  "classify (url k) = CrossOriginCacheable \<Longrightarrow> caches_match st k = Some x \<Longrightarrow>
   caches_match (run_fetches CV evs st) k = Some x"
  by (induction evs arbitrary: st) (simp_all add: fetch_listener_keeps_cross_origin_entry)

subsection \<open>Install and activate\<close>

lemma store_of_put_fetched_other:
  "n \<noteq> name \<Longrightarrow> store_of (put_fetched name e st) n = store_of st n"
  by (cases e; cases "snd e") (auto simp add: store_of_cache_put)

lemma store_of_fold_put_fetched_other:
  "n \<noteq> name \<Longrightarrow> store_of (fold (put_fetched name) es st) n = store_of st n"
  by (induction es arbitrary: st) (simp_all add: store_of_put_fetched_other)

lemma store_of_cache_addAll_other:
  "n \<noteq> name \<Longrightarrow> store_of (snd (cache_addAll name origin net paths st)) n = store_of st n"
  by (simp add: cache_addAll_def Let_def store_of_fold_put_fetched_other)

lemma install_listener_other_store:
  "n \<noteq> CV \<Longrightarrow> store_of (ir_caches (install_listener CV origin net st)) n = store_of st n"
  by (simp add: install_listener_def Let_def store_of_cache_addAll_other store_of_caches_open)

lemma cache_addAll_failed:
  assumes "p \<in> set paths" and "fetch_failed (net (asset_request origin p))"
  shows "cache_addAll name origin net paths st = (Rejected, st)"
proof -
  have "list_ex fetch_failed (map net (map (asset_request origin) paths))"
    using assms by (auto simp add: list_ex_iff)
  then show ?thesis by (simp add: cache_addAll_def Let_def)
qed

lemma install_listener_failed:
  assumes "p \<in> set SHELL_ASSETS" and "fetch_failed (net (asset_request origin p))"
  shows "install_listener CV origin net st =
           \<lparr>wait_until = Rejected, skip_waiting = True, ir_caches = caches_open CV st\<rparr>"
  using assms by (simp add: install_listener_def Let_def cache_addAll_failed [where p = p])

lemma keys_cache_put: "caches_keys (cache_put name r x st) = caches_keys st"
  by (induction st) (auto simp add: caches_keys_def)

lemma keys_put_fetched: "caches_keys (put_fetched name e st) = caches_keys st"
  by (cases e; cases "snd e") (auto simp add: keys_cache_put)

lemma keys_fold_put_fetched: "caches_keys (fold (put_fetched name) es st) = caches_keys st"
  by (induction es arbitrary: st) (simp_all add: keys_put_fetched)

lemma keys_install_listener:
  "caches_keys (ir_caches (install_listener CV origin net st)) = caches_keys (caches_open CV st)"
  by (simp add: install_listener_def cache_addAll_def Let_def keys_fold_put_fetched)

lemma fold_caches_delete: "fold caches_delete ks st = filter (\<lambda>e. fst e \<notin> set ks) st"
proof (induction ks arbitrary: st)
  case Nil
  then show ?case by simp
next
  case (Cons k ks)
  then show ?case by (simp add: caches_delete_def conj_commute)
qed

lemma activate_listener_filter:
  "activate_listener CV st = filter (\<lambda>e. fst e = CV) st"
  unfolding activate_listener_def fold_caches_delete caches_keys_def
  by (rule filter_cong) auto

lemma store_of_activate_listener:
  "store_of (activate_listener CV st) n = (if n = CV then store_of st CV else None)"
  unfolding activate_listener_filter store_of_def
  by (induction st) auto

lemma keys_activate_listener:
  "set (caches_keys (activate_listener CV st)) = set (caches_keys st) \<inter> {CV}"
  unfolding activate_listener_filter caches_keys_def by auto

lemma fetch_listener_open_responded:
  "responded (fetch_listener V net req (caches_open CV st)) = responded (fetch_listener V net req st)"
  by (cases "classify (url req)"; cases "net req")
     (simp_all add: fetch_listener_strategy stale_while_revalidate_def cache_first_def
        network_first_def Let_def fetch_and_put_def caches_match_caches_open split: option.splits)

lemma update_worker_failed:
  assumes "p \<in> set SHELL_ASSETS" and "fetch_failed (net (asset_request origin p))"
  shows "update_worker CV origin net reg =
           \<lparr>reg_caches = caches_open CV (reg_caches reg), active = active reg\<rparr>"
  using assms by (simp add: update_worker_def install_listener_failed [where p = p])

lemma update_worker_not_installed:
  "wait_until (install_listener CV origin net (reg_caches reg)) \<noteq> Fulfilled () \<Longrightarrow>
   update_worker CV origin net reg =
     \<lparr>reg_caches = ir_caches (install_listener CV origin net (reg_caches reg)),
      active = active reg\<rparr>"
  by (cases "wait_until (install_listener CV origin net (reg_caches reg))")
     (simp_all add: update_worker_def Let_def)

lemma update_worker_installed:
  "wait_until (install_listener CV origin net (reg_caches reg)) = Fulfilled () \<Longrightarrow>
   update_worker CV origin net reg =
     \<lparr>reg_caches = activate_listener CV (ir_caches (install_listener CV origin net (reg_caches reg))),
      active = Some CV\<rparr>"
  by (simp add: update_worker_def Let_def install_listener_def)

lemma install_listener_not_installed:
  "wait_until (install_listener CV origin net st) \<noteq> Fulfilled () \<Longrightarrow>
   ir_caches (install_listener CV origin net st) = caches_open CV st"
  by (simp add: install_listener_def cache_addAll_def Let_def split: if_splits)

section \<open>Route classification\<close>

text \<open>
  Claim C2. Route classification is a total function of the request URL alone, first
  match wins: the branches of the fetch listener compute the class that the ordered rule
  table (excluded, then static prefix, then allow-listed host, else dynamic) gives, the
  listener runs the strategy of that class, and each class is characterised by its rule
  and the failure of the rules before it, so every URL has exactly one class.
\<close>

theorem classify_first_match_wins:
  "classify_spec u = classify u \<and>
   fetch_listener CV net req st = strategy (classify_spec (url req)) CV net req st \<and>
   (classify u = Excluded) = excluded_rule u \<and>
   (classify u = ShellAsset) = (\<not> excluded_rule u \<and> under_static_prefix u) \<and>
   (classify u = CrossOriginCacheable) =
      (\<not> excluded_rule u \<and> \<not> under_static_prefix u \<and> allow_listed_host u) \<and>
   (classify u = Dynamic) =
      (\<not> excluded_rule u \<and> \<not> under_static_prefix u \<and> \<not> allow_listed_host u)"
  unfolding classify_spec_eq fetch_listener_strategy
  by (simp add: classify_def rule_table_def excluded_rule_def
      live_streaming_endpoint_def administrative_surface_def state_session_endpoint_def
      command_submission_endpoint_def application_manifest_def under_static_prefix_def
      allow_listed_host_def third_party_hosts_def)

theorem classify_first_match_wins_witness:
  "classify_spec (url (get ''ha.local'' ''/static/dist.css'')) = ShellAsset \<and>
   classify_spec (url (get ''ha.local'' ''/admin/dashboard'')) = Excluded \<and>
   classify_spec (url (get ''fonts.gstatic.com'' ''/s/font.woff2'')) = CrossOriginCacheable \<and>
   classify_spec (url (get ''ha.local'' ''/g/abc'')) = Dynamic"
  using classify_first_match_wins [of "url (get ''ha.local'' ''/static/dist.css'')"]
    classify_first_match_wins [of "url (get ''ha.local'' ''/admin/dashboard'')"]
    classify_first_match_wins [of "url (get ''fonts.gstatic.com'' ''/s/font.woff2'')"]
    classify_first_match_wins [of "url (get ''ha.local'' ''/g/abc'')"]
  by (simp add: classify_def get_def)

section \<open>Excluded routes\<close>

text \<open>
  Claim C7. A request classified excluded is not intercepted: the listener returns
  without calling respondWith, makes no call on the cache (no read, no write), leaves
  CacheStorage as it was, and the page receives what the network gives.
\<close>

theorem excluded_not_intercepted:
  assumes "classify (url req) = Excluded"
  shows "fetch_listener CV net req st = \<lparr>responded = PassThrough, trace = [], caches_after = st\<rparr> \<and>
         length (filter is_cache_read (trace (fetch_listener CV net req st))) = 0 \<and>
         length (filter is_cache_write (trace (fetch_listener CV net req st))) = 0 \<and>
         caches_after (fetch_listener CV net req st) = st \<and>
         delivered net req (responded (fetch_listener CV net req st)) = net req"
  using assms by (simp add: fetch_listener_strategy)

theorem excluded_not_intercepted_witness:
  "classify (url (get ''ha.local'' ''/g/abc/stream'')) = Excluded \<and>
   fetch_listener ''v1'' (serving new_bytes) (get ''ha.local'' ''/g/abc/stream'')
       [(''v1'', [(get ''ha.local'' ''/g/abc/stream'', old_bytes)])] =
     \<lparr>responded = PassThrough, trace = [],
      caches_after = [(''v1'', [(get ''ha.local'' ''/g/abc/stream'', old_bytes)])]\<rparr> \<and>
   delivered (serving new_bytes) (get ''ha.local'' ''/g/abc/stream'')
     (responded (fetch_listener ''v1'' (serving new_bytes) (get ''ha.local'' ''/g/abc/stream'')
       [(''v1'', [(get ''ha.local'' ''/g/abc/stream'', old_bytes)])])) = Fulfilled new_bytes"
proof -
  have c: "classify (url (get ''ha.local'' ''/g/abc/stream'')) = Excluded"
    by (simp add: classify_def get_def)
  show ?thesis
    using c excluded_not_intercepted [OF c, of "''v1''" "serving new_bytes"
        "[(''v1'', [(get ''ha.local'' ''/g/abc/stream'', old_bytes)])]"]
    by (simp add: serving_def)
qed

text \<open>
  Claim C10. The exclusion checks are substring checks made before the static-prefix
  check, so a path under \<^verbatim>\<open>/static/\<close> that contains an excluded substring (as
  \<^verbatim>\<open>/static/state.js\<close> and \<^verbatim>\<open>/static/streaming.png\<close> do) is classified
  excluded and is neither read from nor written to the cache.
\<close>

theorem static_path_with_excluded_substring:
  assumes "startsWith (pathname (url req)) ''/static/''"
    and "includes_str (pathname (url req)) ''/stream'' \<or>
         includes_str (pathname (url req)) ''/state'' \<or>
         includes_str (pathname (url req)) ''/command'' \<or>
         includes_str (pathname (url req)) ''/manifest.json''"
  shows "classify (url req) = Excluded \<and>
         fetch_listener CV net req st = \<lparr>responded = PassThrough, trace = [], caches_after = st\<rparr> \<and>
         length (filter is_cache_read (trace (fetch_listener CV net req st))) = 0 \<and>
         length (filter is_cache_write (trace (fetch_listener CV net req st))) = 0 \<and>
         caches_after (fetch_listener CV net req st) = st"
proof -
  from assms(2) have "classify (url req) = Excluded"
    by (auto simp add: classify_def)
  then show ?thesis by (simp add: fetch_listener_strategy)
qed

theorem static_path_with_excluded_substring_witness:
  "startsWith (pathname (url (get ''ha.local'' ''/static/state.js''))) ''/static/'' \<and>
   includes_str (pathname (url (get ''ha.local'' ''/static/state.js''))) ''/state'' \<and>
   classify (url (get ''ha.local'' ''/static/state.js'')) = Excluded \<and>
   fetch_listener ''v1'' (serving new_bytes) (get ''ha.local'' ''/static/state.js'')
       [(''v1'', [(get ''ha.local'' ''/static/state.js'', old_bytes)])] =
     \<lparr>responded = PassThrough, trace = [],
      caches_after = [(''v1'', [(get ''ha.local'' ''/static/state.js'', old_bytes)])]\<rparr> \<and>
   startsWith (pathname (url (get ''ha.local'' ''/static/streaming.png''))) ''/static/'' \<and>
   includes_str (pathname (url (get ''ha.local'' ''/static/streaming.png''))) ''/stream'' \<and>
   classify (url (get ''ha.local'' ''/static/streaming.png'')) = Excluded"
proof -
  have a: "startsWith (pathname (url (get ''ha.local'' ''/static/state.js''))) ''/static/''"
    by (simp add: get_def)
  have b: "includes_str (pathname (url (get ''ha.local'' ''/static/state.js''))) ''/state''"
    by (simp add: get_def)
  have a': "startsWith (pathname (url (get ''ha.local'' ''/static/streaming.png''))) ''/static/''"
    by (simp add: get_def)
  have b': "includes_str (pathname (url (get ''ha.local'' ''/static/streaming.png''))) ''/stream''"
    by (simp add: get_def)
  from b have d: "includes_str (pathname (url (get ''ha.local'' ''/static/state.js''))) ''/stream'' \<or>
         includes_str (pathname (url (get ''ha.local'' ''/static/state.js''))) ''/state'' \<or>
         includes_str (pathname (url (get ''ha.local'' ''/static/state.js''))) ''/command'' \<or>
         includes_str (pathname (url (get ''ha.local'' ''/static/state.js''))) ''/manifest.json''"
    by blast
  from b' have d': "includes_str (pathname (url (get ''ha.local'' ''/static/streaming.png''))) ''/stream'' \<or>
         includes_str (pathname (url (get ''ha.local'' ''/static/streaming.png''))) ''/state'' \<or>
         includes_str (pathname (url (get ''ha.local'' ''/static/streaming.png''))) ''/command'' \<or>
         includes_str (pathname (url (get ''ha.local'' ''/static/streaming.png''))) ''/manifest.json''"
    by blast
  show ?thesis
    using a b a' b'
      static_path_with_excluded_substring [OF a d, of "''v1''" "serving new_bytes"
        "[(''v1'', [(get ''ha.local'' ''/static/state.js'', old_bytes)])]"]
      static_path_with_excluded_substring [OF a' d', of "''v1''" "serving new_bytes" "[]"]
    by blast
qed

section \<open>Network first\<close>

text \<open>
  Claim C4. For a request classified dynamic the listener attempts the network fetch;
  when the fetch fails the page receives the cached response of the same request if
  there is one and a failure otherwise; and nothing is written to the cache, whatever
  the network does.
\<close>

theorem network_first_fallback:
  assumes "classify (url req) = Dynamic"
  shows "NetFetch req \<in> set (trace (fetch_listener CV net req st)) \<and>
         (net req = Rejected \<longrightarrow>
            delivered net req (responded (fetch_listener CV net req st)) =
              (case caches_match st req of Some c \<Rightarrow> Fulfilled c | None \<Rightarrow> Rejected)) \<and>
         length (filter is_cache_write (trace (fetch_listener CV net req st))) = 0 \<and>
         caches_after (fetch_listener CV net req st) = st"
  using assms
  by (cases "net req") (auto simp add: fetch_listener_strategy network_first_def split: option.splits)

theorem network_first_fallback_witness:
  "classify (url (get ''ha.local'' ''/g/abc'')) = Dynamic \<and>
   offline (get ''ha.local'' ''/g/abc'') = Rejected \<and>
   delivered offline (get ''ha.local'' ''/g/abc'')
     (responded (fetch_listener ''v1'' offline (get ''ha.local'' ''/g/abc'')
        [(''v1'', [(get ''ha.local'' ''/g/abc'', old_bytes)])])) = Fulfilled old_bytes \<and>
   delivered offline (get ''ha.local'' ''/g/abc'')
     (responded (fetch_listener ''v1'' offline (get ''ha.local'' ''/g/abc'') [(''v1'', [])])) = Rejected \<and>
   caches_after (fetch_listener ''v1'' offline (get ''ha.local'' ''/g/abc'')
        [(''v1'', [(get ''ha.local'' ''/g/abc'', old_bytes)])]) =
     [(''v1'', [(get ''ha.local'' ''/g/abc'', old_bytes)])]"
proof -
  have c: "classify (url (get ''ha.local'' ''/g/abc'')) = Dynamic"
    by (simp add: classify_def get_def)
  have o: "offline (get ''ha.local'' ''/g/abc'') = Rejected"
    by (simp add: offline_def)
  have m1: "caches_match [(''v1'', [(get ''ha.local'' ''/g/abc'', old_bytes)])] (get ''ha.local'' ''/g/abc'') = Some old_bytes"
    by (simp add: cache_match_def get_def)
  have m2: "caches_match [(''v1'', [])] (get ''ha.local'' ''/g/abc'') = None"
    by (simp add: cache_match_def get_def)
  show ?thesis
    using c o
      network_first_fallback [OF c, of "''v1''" offline "[(''v1'', [(get ''ha.local'' ''/g/abc'', old_bytes)])]"]
      network_first_fallback [OF c, of "''v1''" offline "[(''v1'', [])]"]
    by (simp add: cache_match_def get_def)
qed

section \<open>Responses that are not a success\<close>

text \<open>
  Claim C5, as stated, fails: the fetch listener never looks at the status of a response.
  With the guest page cached, a network that is down gives the page the cached copy, but
  a server answering 500 gives it the 500 response, with no fallback; and under
  stale-while-revalidate the 500 response replaces the cached stylesheet.
\<close>

theorem non_success_counterexample:
  "classify (url guest_page) = Dynamic \<and> \<not> ok server_error \<and>
   delivered offline guest_page
     (responded (fetch_listener ''ha-pass-v1'' offline guest_page
        [(''ha-pass-v1'', [(guest_page, old_bytes)])])) = Fulfilled old_bytes \<and>
   delivered (serving server_error) guest_page
     (responded (fetch_listener ''ha-pass-v1'' (serving server_error) guest_page
        [(''ha-pass-v1'', [(guest_page, old_bytes)])])) = Fulfilled server_error \<and>
   classify (url css) = ShellAsset \<and>
   caches_after (fetch_listener ''ha-pass-v1'' (serving server_error) css
        [(''ha-pass-v1'', [(css, old_bytes)])]) = [(''ha-pass-v1'', [(css, server_error)])]"
  by (simp add: fetch_listener_strategy classify_def guest_page_def css_def get_def ok_def
      server_error_def network_first_def stale_while_revalidate_def fetch_and_put_def
      offline_def serving_def cache_match_def caches_open_def Let_def)

text \<open>
  Claim C5, amended. A fetch that fulfils with a response that is not a success is not a
  fetch failure for the listener, only a rejected fetch is: for a dynamic request the
  response goes to the page and the cache is not consulted; under stale-while-revalidate,
  and under cache-first on a miss, the response of a GET request is written to the store
  of the active generation.
\<close>

theorem non_success_is_not_a_failure:
  assumes "net req = Fulfilled x" and "\<not> ok x"
  shows "(classify (url req) = Dynamic \<longrightarrow>
            delivered net req (responded (fetch_listener CV net req st)) = Fulfilled x \<and>
            length (filter is_cache_read (trace (fetch_listener CV net req st))) = 0) \<and>
         (classify (url req) = ShellAsset \<and> http_method req = ''GET'' \<longrightarrow>
            active_lookup CV (caches_after (fetch_listener CV net req st)) req = Some x) \<and>
         (classify (url req) = CrossOriginCacheable \<and> http_method req = ''GET'' \<and>
          caches_match st req = None \<longrightarrow>
            active_lookup CV (caches_after (fetch_listener CV net req st)) req = Some x \<and>
            delivered net req (responded (fetch_listener CV net req st)) = Fulfilled x)"
  using assms(1) not_ok_not_partial [OF assms(2)]
  by (simp add: fetch_listener_strategy network_first_def stale_while_revalidate_def
      cache_first_def fetch_and_put_Fulfilled active_lookup_put_open Let_def)

theorem non_success_is_not_a_failure_witness:
  "serving server_error guest_page = Fulfilled server_error \<and> \<not> ok server_error \<and>
   classify (url guest_page) = Dynamic \<and>
   delivered (serving server_error) guest_page
     (responded (fetch_listener ''ha-pass-v1'' (serving server_error) guest_page
        [(''ha-pass-v1'', [(guest_page, old_bytes)])])) = Fulfilled server_error \<and>
   serving server_error css = Fulfilled server_error \<and>
   classify (url css) = ShellAsset \<and> http_method css = ''GET'' \<and>
   active_lookup ''ha-pass-v1''
     (caches_after (fetch_listener ''ha-pass-v1'' (serving server_error) css
        [(''ha-pass-v1'', [(css, old_bytes)])])) css = Some server_error \<and>
   serving server_error font = Fulfilled server_error \<and>
   classify (url font) = CrossOriginCacheable \<and> http_method font = ''GET'' \<and>
   caches_match [(''ha-pass-v1'', [])] font = None \<and>
   active_lookup ''ha-pass-v1''
     (caches_after (fetch_listener ''ha-pass-v1'' (serving server_error) font
        [(''ha-pass-v1'', [])])) font = Some server_error"
proof -
  have n: "\<not> ok server_error" by (simp add: ok_def server_error_def)
  have s: "serving server_error r = Fulfilled server_error" for r by (simp add: serving_def)
  have c: "classify (url guest_page) = Dynamic" "classify (url css) = ShellAsset"
    "classify (url font) = CrossOriginCacheable"
    by (simp_all add: classify_def guest_page_def css_def font_def get_def)
  have g: "http_method css = ''GET''" "http_method font = ''GET''"
    by (simp_all add: css_def font_def get_def)
  have m: "caches_match [(''ha-pass-v1'', [])] font = None"
    by (simp add: cache_match_def)
  show ?thesis
    using n s c g m
      non_success_is_not_a_failure [where net = "serving server_error" and x = server_error
        and req = guest_page and CV = "''ha-pass-v1''"
        and st = "[(''ha-pass-v1'', [(guest_page, old_bytes)])]"]
      non_success_is_not_a_failure [where net = "serving server_error" and x = server_error
        and req = css and CV = "''ha-pass-v1''" and st = "[(''ha-pass-v1'', [(css, old_bytes)])]"]
      non_success_is_not_a_failure [where net = "serving server_error" and x = server_error
        and req = font and CV = "''ha-pass-v1''" and st = "[(''ha-pass-v1'', [])]"]
    by simp
qed

section \<open>Which store is read and written\<close>

text \<open>
  Claim C8, as stated, fails for reads: the listener reads with
  \<^verbatim>\<open>caches.match\<close>, which searches every store. With the store of v1 left
  beside the empty store of the active v2, the worker of v2 answers the stylesheet
  request with the bytes of the v1 store, which its own store does not hold.
\<close>

theorem stale_store_read_counterexample:
  "classify (url css) = ShellAsset \<and>
   store_of stale_ahead ''ha-pass-v1'' = Some [(css, old_bytes)] \<and>
   active_lookup ''ha-pass-v2'' stale_ahead css = None \<and>
   trace (fetch_listener ''ha-pass-v2'' offline css stale_ahead) =
     [CacheMatch css (Some old_bytes), NetFetch css] \<and>
   responded (fetch_listener ''ha-pass-v2'' offline css stale_ahead) =
     RespondWith (Fulfilled (Some old_bytes)) \<and>
   \<not> list_all (read_from ''ha-pass-v2'' stale_ahead)
        (trace (fetch_listener ''ha-pass-v2'' offline css stale_ahead))"
  by (simp add: fetch_listener_strategy classify_def css_def get_def stale_ahead_def
      store_of_def active_lookup_def stale_while_revalidate_def fetch_and_put_def
      offline_def cache_match_def Let_def)

text \<open>
  Claim C8, amended. Every cache write of the fetch listener opens and writes the store
  named for the active generation, and no store of another name is changed. Every cache
  read is the search over all existing stores in creation order; it is answered by the
  store of the active generation when that store is the only one, or when it holds an
  entry for the request and no store created before it does.
\<close>

theorem writes_address_active_generation:
  "list_all (writes_only_to CV) (trace (fetch_listener CV net req st)) \<and>
   (\<forall>n. n \<noteq> CV \<longrightarrow> store_of (caches_after (fetch_listener CV net req st)) n = store_of st n) \<and>
   list_all (reads_all_stores st) (trace (fetch_listener CV net req st)) \<and>
   (caches_keys st = [CV] \<or> (older_match CV st req = None \<and> active_lookup CV st req \<noteq> None) \<longrightarrow>
      list_all (read_from CV st) (trace (fetch_listener CV net req st)))"
proof -
  have "caches_match st req = active_lookup CV st req"
    if "caches_keys st = [CV] \<or> (older_match CV st req = None \<and> active_lookup CV st req \<noteq> None)"
    using that by (auto simp add: sole_store_caches_match older_match_None_caches_match)
  then show ?thesis
    by (simp add: fetch_listener_writes fetch_listener_other_store fetch_listener_reads
        fetch_listener_reads_active)
qed

theorem writes_address_active_generation_witness:
  "caches_keys [(''ha-pass-v2'', [(css, old_bytes)])] = [''ha-pass-v2''] \<and>
   ''ha-pass-v1'' \<noteq> ''ha-pass-v2'' \<and>
   list_all (writes_only_to ''ha-pass-v2'')
     (trace (fetch_listener ''ha-pass-v2'' (serving new_bytes) css stale_ahead)) \<and>
   store_of (caches_after (fetch_listener ''ha-pass-v2'' (serving new_bytes) css stale_ahead))
     ''ha-pass-v1'' = Some [(css, old_bytes)] \<and>
   list_all (read_from ''ha-pass-v2'' [(''ha-pass-v2'', [(css, old_bytes)])])
     (trace (fetch_listener ''ha-pass-v2'' (serving new_bytes) css
        [(''ha-pass-v2'', [(css, old_bytes)])]))"
proof -
  have k: "caches_keys [(''ha-pass-v2'', [(css, old_bytes)])] = [''ha-pass-v2'']"
    by (simp add: caches_keys_def)
  have s: "store_of stale_ahead ''ha-pass-v1'' = Some [(css, old_bytes)]"
    by (simp add: store_of_def stale_ahead_def)
  show ?thesis
    using k s
      writes_address_active_generation [of "''ha-pass-v2''" "serving new_bytes" css stale_ahead]
      writes_address_active_generation [of "''ha-pass-v2''" "serving new_bytes" css
        "[(''ha-pass-v2'', [(css, old_bytes)])]"]
    by simp
qed

section \<open>Stale while revalidate\<close>

text \<open>
  Claim C3, as stated, fails in its third part, in two ways. The revalidation writes the
  store of the active generation, but the next request reads with
  \<^verbatim>\<open>caches.match\<close> over all stores: with a store of v1 created earlier and still
  holding the stylesheet, the worker of v2 stores the fresh bytes in its own store, and
  the request issued after that still receives the old bytes. And a revalidation fetch
  that succeeds with a 206 response is not stored at all, since
  \<^verbatim>\<open>cache.put\<close> rejects it: with the store of v1 alone, the entry and the next
  response are still the old bytes.
\<close>

theorem revalidation_counterexample:
  "classify (url css) = ShellAsset \<and>
   caches_match stale_ahead css = Some old_bytes \<and>
   serving new_bytes css = Fulfilled new_bytes \<and>
   active_lookup ''ha-pass-v2''
     (caches_after (fetch_listener ''ha-pass-v2'' (serving new_bytes) css stale_ahead)) css =
     Some new_bytes \<and>
   responded (fetch_listener ''ha-pass-v2'' (serving new_bytes) css
       (caches_after (fetch_listener ''ha-pass-v2'' (serving new_bytes) css stale_ahead))) =
     RespondWith (Fulfilled (Some old_bytes)) \<and>
   old_bytes \<noteq> new_bytes \<and>
   caches_match [(''ha-pass-v1'', [(css, old_bytes)])] css = Some old_bytes \<and>
   serving partial_content css = Fulfilled partial_content \<and>
   caches_after (fetch_listener ''ha-pass-v1'' (serving partial_content) css
       [(''ha-pass-v1'', [(css, old_bytes)])]) = [(''ha-pass-v1'', [(css, old_bytes)])] \<and>
   responded (fetch_listener ''ha-pass-v1'' (serving partial_content) css
       (caches_after (fetch_listener ''ha-pass-v1'' (serving partial_content) css
          [(''ha-pass-v1'', [(css, old_bytes)])]))) =
     RespondWith (Fulfilled (Some old_bytes)) \<and>
   old_bytes \<noteq> partial_content"
  by (simp add: fetch_listener_strategy classify_def css_def get_def stale_ahead_def
      store_of_def active_lookup_def stale_while_revalidate_def fetch_and_put_def
      serving_def cache_match_def caches_open_def old_bytes_def new_bytes_def
      partial_content_def Let_def)

text \<open>
  Claim C3, amended. For a shell-asset request with a cached entry the listener responds
  with the cached bytes whatever the network does, also when the revalidation fetch never
  settles; once a revalidation fetch has fulfilled with a response whose status is not
  206, the store of the active generation holds the fresh bytes, and a later request for
  the same resource receives them provided no store created before the store of the
  active generation holds an entry for the request. With no cached entry the page
  receives what the network fetch gives.
\<close>

theorem stale_while_revalidate_serves_then_refreshes:
  assumes "classify (url req) = ShellAsset"
  shows "(caches_match st req = Some old \<longrightarrow>
            responded (fetch_listener CV net req st) = RespondWith (Fulfilled (Some old))) \<and>
         (caches_match st req = Some old \<and> net req = Fulfilled fresh \<and> status fresh \<noteq> 206 \<longrightarrow>
            active_lookup CV (caches_after (fetch_listener CV net req st)) req = Some fresh) \<and>
         (caches_match st req = Some old \<and> net req = Fulfilled fresh \<and> status fresh \<noteq> 206 \<and>
          older_match CV st req = None \<longrightarrow>
            caches_match (caches_after (fetch_listener CV net req st)) req = Some fresh \<and>
            responded (fetch_listener CV net' req (caches_after (fetch_listener CV net req st))) =
              RespondWith (Fulfilled (Some fresh))) \<and>
         (caches_match st req = None \<longrightarrow>
            delivered net req (responded (fetch_listener CV net req st)) = net req \<and>
            NetFetch req \<in> set (trace (fetch_listener CV net req st)))"
proof -
  have hit: "responded (fetch_listener CV n req s) = RespondWith (Fulfilled (Some y))"
    if "caches_match s req = Some y" for n s y
    using assms that by (simp add: fetch_listener_strategy stale_while_revalidate_def Let_def)
  have after: "caches_after (fetch_listener CV net req st) = cache_put CV req fresh (caches_open CV st)"
    if "net req = Fulfilled fresh"
    using assms that
    by (simp add: fetch_listener_strategy stale_while_revalidate_def Let_def fetch_and_put_Fulfilled)
  have stored: "active_lookup CV (caches_after (fetch_listener CV net req st)) req = Some fresh"
    if "caches_match st req = Some old" and "net req = Fulfilled fresh" and "status fresh \<noteq> 206"
    using that by (simp add: after active_lookup_put_open caches_match_GET)
  have found: "caches_match (caches_after (fetch_listener CV net req st)) req = Some fresh"
    if "caches_match st req = Some old" and "net req = Fulfilled fresh" and "status fresh \<noteq> 206"
      and "older_match CV st req = None"
    using that by (simp add: after caches_match_put_open_same caches_match_GET)
  have miss: "delivered net req (responded (fetch_listener CV net req st)) = net req \<and>
      NetFetch req \<in> set (trace (fetch_listener CV net req st))"
    if "caches_match st req = None"
    using assms that
    by (cases "net req")
       (simp_all add: fetch_listener_strategy stale_while_revalidate_def Let_def fetch_and_put_def)
  show ?thesis
    using hit stored found miss by blast
qed

theorem stale_while_revalidate_serves_then_refreshes_witness:
  "classify (url css) = ShellAsset \<and>
   caches_match [(''ha-pass-v1'', [(css, old_bytes)])] css = Some old_bytes \<and>
   responded (fetch_listener ''ha-pass-v1'' stalled css [(''ha-pass-v1'', [(css, old_bytes)])]) =
     RespondWith (Fulfilled (Some old_bytes)) \<and>
   serving new_bytes css = Fulfilled new_bytes \<and> status new_bytes \<noteq> 206 \<and>
   older_match ''ha-pass-v1'' [(''ha-pass-v1'', [(css, old_bytes)])] css = None \<and>
   responded (fetch_listener ''ha-pass-v1'' (serving new_bytes) css
       [(''ha-pass-v1'', [(css, old_bytes)])]) = RespondWith (Fulfilled (Some old_bytes)) \<and>
   active_lookup ''ha-pass-v1''
     (caches_after (fetch_listener ''ha-pass-v1'' (serving new_bytes) css
        [(''ha-pass-v1'', [(css, old_bytes)])])) css = Some new_bytes \<and>
   responded (fetch_listener ''ha-pass-v1'' offline css
       (caches_after (fetch_listener ''ha-pass-v1'' (serving new_bytes) css
          [(''ha-pass-v1'', [(css, old_bytes)])]))) = RespondWith (Fulfilled (Some new_bytes)) \<and>
   caches_match [(''ha-pass-v1'', [])] css = None \<and>
   delivered (serving new_bytes) css
     (responded (fetch_listener ''ha-pass-v1'' (serving new_bytes) css [(''ha-pass-v1'', [])])) =
     Fulfilled new_bytes"
proof -
  have c: "classify (url css) = ShellAsset"
    by (simp add: classify_def css_def get_def)
  have m: "caches_match [(''ha-pass-v1'', [(css, old_bytes)])] css = Some old_bytes"
    "caches_match [(''ha-pass-v1'', [])] css = None"
    by (simp_all add: cache_match_def css_def get_def)
  have s: "serving new_bytes css = Fulfilled new_bytes"
    by (simp add: serving_def)
  have n: "status new_bytes \<noteq> 206"
    by (simp add: new_bytes_def)
  have ol: "older_match ''ha-pass-v1'' [(''ha-pass-v1'', [(css, old_bytes)])] css = None"
    by simp
  show ?thesis
    using c m s n ol
      stale_while_revalidate_serves_then_refreshes [OF c, of "[(''ha-pass-v1'', [(css, old_bytes)])]"
        old_bytes "''ha-pass-v1''" stalled new_bytes offline]
      stale_while_revalidate_serves_then_refreshes [OF c, of "[(''ha-pass-v1'', [(css, old_bytes)])]"
        old_bytes "''ha-pass-v1''" "serving new_bytes" new_bytes offline]
      stale_while_revalidate_serves_then_refreshes [OF c, of "[(''ha-pass-v1'', [])]"
        old_bytes "''ha-pass-v1''" "serving new_bytes" new_bytes offline]
    by simp
qed

section \<open>Cache first\<close>

text \<open>
  Claim C6, as stated, fails in its second part, in three ways. The cache stores no
  request that is not a GET, so after a successful fetch of a POST to an allow-listed
  host nothing is stored and the next request for the same resource fetches again. A
  successful fetch that brings a 206 response is not stored either, since
  \<^verbatim>\<open>cache.put\<close> rejects it, and the next request fetches again. And an entry stored
  by generation v1 is deleted with its store when generation v2 is installed and
  activated, so the next request for the resource, handled by v2, fetches again.
\<close>

theorem cache_first_refetch_counterexample:
  "classify (url font_post) = CrossOriginCacheable \<and>
   serving new_bytes font_post = Fulfilled new_bytes \<and>
   delivered (serving new_bytes) font_post
     (responded (fetch_listener ''ha-pass-v1'' (serving new_bytes) font_post [(''ha-pass-v1'', [])])) =
     Fulfilled new_bytes \<and>
   NetFetch font_post \<in> set (trace (fetch_listener ''ha-pass-v1'' (serving new_bytes) font_post
     (caches_after (fetch_listener ''ha-pass-v1'' (serving new_bytes) font_post [(''ha-pass-v1'', [])])))) \<and>
   classify (url font) = CrossOriginCacheable \<and>
   serving partial_content font = Fulfilled partial_content \<and>
   delivered (serving partial_content) font
     (responded (fetch_listener ''ha-pass-v1'' (serving partial_content) font [(''ha-pass-v1'', [])])) =
     Fulfilled partial_content \<and>
   NetFetch font \<in> set (trace (fetch_listener ''ha-pass-v1'' (serving partial_content) font
     (caches_after (fetch_listener ''ha-pass-v1'' (serving partial_content) font [(''ha-pass-v1'', [])])))) \<and>
   serving new_bytes font = Fulfilled new_bytes \<and>
   delivered (serving new_bytes) font
     (responded (fetch_listener ''ha-pass-v1'' (serving new_bytes) font [(''ha-pass-v1'', [])])) =
     Fulfilled new_bytes \<and>
   active (update_worker ''ha-pass-v2'' ''ha.local'' (serving new_bytes)
     \<lparr>reg_caches = caches_after (fetch_listener ''ha-pass-v1'' (serving new_bytes) font [(''ha-pass-v1'', [])]),
      active = Some ''ha-pass-v1''\<rparr>) = Some ''ha-pass-v2'' \<and>
   NetFetch font \<in> set (trace (fetch_listener ''ha-pass-v2'' (serving new_bytes) font
     (reg_caches (update_worker ''ha-pass-v2'' ''ha.local'' (serving new_bytes)
        \<lparr>reg_caches = caches_after (fetch_listener ''ha-pass-v1'' (serving new_bytes) font [(''ha-pass-v1'', [])]),
         active = Some ''ha-pass-v1''\<rparr>))))"
proof -
  have posted: "classify (url font_post) = CrossOriginCacheable \<and>
   serving new_bytes font_post = Fulfilled new_bytes \<and>
   delivered (serving new_bytes) font_post
     (responded (fetch_listener ''ha-pass-v1'' (serving new_bytes) font_post [(''ha-pass-v1'', [])])) =
     Fulfilled new_bytes \<and>
   NetFetch font_post \<in> set (trace (fetch_listener ''ha-pass-v1'' (serving new_bytes) font_post
     (caches_after (fetch_listener ''ha-pass-v1'' (serving new_bytes) font_post [(''ha-pass-v1'', [])]))))"
    by (simp add: fetch_listener_strategy classify_def font_post_def post_def
        cache_first_def fetch_and_put_def serving_def cache_match_def caches_open_def Let_def)
  have partial: "classify (url font) = CrossOriginCacheable \<and>
   serving partial_content font = Fulfilled partial_content \<and>
   delivered (serving partial_content) font
     (responded (fetch_listener ''ha-pass-v1'' (serving partial_content) font [(''ha-pass-v1'', [])])) =
     Fulfilled partial_content \<and>
   NetFetch font \<in> set (trace (fetch_listener ''ha-pass-v1'' (serving partial_content) font
     (caches_after (fetch_listener ''ha-pass-v1'' (serving partial_content) font [(''ha-pass-v1'', [])]))))"
    by (simp add: fetch_listener_strategy classify_def font_def get_def partial_content_def
        cache_first_def fetch_and_put_def serving_def cache_match_def caches_open_def Let_def)
  have first: "serving new_bytes font = Fulfilled new_bytes \<and>
   delivered (serving new_bytes) font
     (responded (fetch_listener ''ha-pass-v1'' (serving new_bytes) font [(''ha-pass-v1'', [])])) =
     Fulfilled new_bytes \<and>
   caches_after (fetch_listener ''ha-pass-v1'' (serving new_bytes) font [(''ha-pass-v1'', [])]) =
     [(''ha-pass-v1'', [(font, new_bytes)])]"
    by (simp add: fetch_listener_strategy classify_def font_def get_def new_bytes_def
        cache_first_def fetch_and_put_def serving_def cache_match_def caches_open_def Let_def)
  have installed: "wait_until (install_listener ''ha-pass-v2'' ''ha.local'' (serving new_bytes)
      (reg_caches \<lparr>reg_caches = [(''ha-pass-v1'', [(font, new_bytes)])], active = Some ''ha-pass-v1''\<rparr>)) =
     Fulfilled ()"
    by (simp add: install_listener_def cache_addAll_def Let_def SHELL_ASSETS_def
        serving_def new_bytes_def ok_def)
  have reg: "reg_caches (update_worker ''ha-pass-v2'' ''ha.local'' (serving new_bytes)
      \<lparr>reg_caches = [(''ha-pass-v1'', [(font, new_bytes)])], active = Some ''ha-pass-v1''\<rparr>) =
     activate_listener ''ha-pass-v2'' (ir_caches (install_listener ''ha-pass-v2'' ''ha.local''
       (serving new_bytes) [(''ha-pass-v1'', [(font, new_bytes)])]))"
    using update_worker_installed [OF installed] by simp
  have "caches_match (activate_listener ''ha-pass-v2'' (ir_caches (install_listener ''ha-pass-v2''
      ''ha.local'' (serving new_bytes) [(''ha-pass-v1'', [(font, new_bytes)])]))) font = None"
    by (simp add: activate_listener_filter install_listener_def cache_addAll_def Let_def
        SHELL_ASSETS_def serving_def caches_open_def asset_request_def font_def get_def
        new_bytes_def cache_match_def)
  with reg have gone: "caches_match (reg_caches (update_worker ''ha-pass-v2'' ''ha.local''
      (serving new_bytes)
      \<lparr>reg_caches = [(''ha-pass-v1'', [(font, new_bytes)])], active = Some ''ha-pass-v1''\<rparr>)) font = None"
    by simp
  have again: "NetFetch font \<in> set (trace (fetch_listener ''ha-pass-v2'' (serving new_bytes) font
     (reg_caches (update_worker ''ha-pass-v2'' ''ha.local'' (serving new_bytes)
        \<lparr>reg_caches = [(''ha-pass-v1'', [(font, new_bytes)])], active = Some ''ha-pass-v1''\<rparr>))))"
    using partial gone
    by (simp add: fetch_listener_strategy cache_first_def Let_def fetch_and_put_def serving_def)
  have act: "active (update_worker ''ha-pass-v2'' ''ha.local'' (serving new_bytes)
      \<lparr>reg_caches = [(''ha-pass-v1'', [(font, new_bytes)])], active = Some ''ha-pass-v1''\<rparr>) =
     Some ''ha-pass-v2''"
    by (simp add: update_worker_installed [OF installed])
  show ?thesis
    using posted partial first again act by simp
qed

text \<open>
  Claim C6, amended. For a cross-origin-cacheable request with a cached entry the entry is
  returned with no network fetch and CacheStorage is unchanged. After one successful
  fetch of a resource by a GET request that found no entry and brought a response whose
  status is not 206, every later request for the same resource handled by the worker of
  the same generation, after any fetch events in between and whatever the network does
  then, is answered with exactly the bytes fetched and with no network fetch.
\<close>

theorem cache_first_fetches_once:
  assumes "classify (url req) = CrossOriginCacheable"
  shows "(caches_match st req = Some x \<longrightarrow>
            responded (fetch_listener CV net req st) = RespondWith (Fulfilled (Some x)) \<and>
            length (filter is_net_fetch (trace (fetch_listener CV net req st))) = 0 \<and>
            caches_after (fetch_listener CV net req st) = st) \<and>
         (caches_match st req = None \<and> net req = Fulfilled x \<and> http_method req = ''GET'' \<and>
          status x \<noteq> 206 \<longrightarrow>
            delivered net req (responded (fetch_listener CV net req st)) = Fulfilled x \<and>
            responded (fetch_listener CV net' req
                (run_fetches CV evs (caches_after (fetch_listener CV net req st)))) =
              RespondWith (Fulfilled (Some x)) \<and>
            length (filter is_net_fetch (trace (fetch_listener CV net' req
                (run_fetches CV evs (caches_after (fetch_listener CV net req st)))))) = 0)"
proof -
  have hit: "fetch_listener CV n req s =
      \<lparr>responded = RespondWith (Fulfilled (Some y)), trace = [CacheMatch req (Some y)],
       caches_after = s\<rparr>"
    if "caches_match s req = Some y" for n s y
    using assms that by (rule cross_origin_hit_unchanged)
  have first: "delivered net req (responded (fetch_listener CV net req st)) = Fulfilled x \<and>
      caches_match (caches_after (fetch_listener CV net req st)) req = Some x"
    if "caches_match st req = None" and "net req = Fulfilled x" and "http_method req = ''GET''"
      and "status x \<noteq> 206"
  proof -
    have "older_match CV st req = None"
      using that(1) by (induction st) (auto split: option.splits)
    then show ?thesis
      using assms that
      by (simp add: fetch_listener_strategy cache_first_def Let_def fetch_and_put_Fulfilled
          caches_match_put_open_same)
  qed
  have later: "caches_match (run_fetches CV evs (caches_after (fetch_listener CV net req st))) req = Some x"
    if "caches_match st req = None" and "net req = Fulfilled x" and "http_method req = ''GET''"
      and "status x \<noteq> 206"
    using assms first [OF that] by (simp add: run_fetches_keeps_cross_origin_entry)
  show ?thesis
    using hit first later by simp
qed

theorem cache_first_fetches_once_witness:
  "classify (url font) = CrossOriginCacheable \<and>
   caches_match [(''ha-pass-v1'', [(font, old_bytes)])] font = Some old_bytes \<and>
   fetch_listener ''ha-pass-v1'' (serving new_bytes) font [(''ha-pass-v1'', [(font, old_bytes)])] =
     \<lparr>responded = RespondWith (Fulfilled (Some old_bytes)),
      trace = [CacheMatch font (Some old_bytes)],
      caches_after = [(''ha-pass-v1'', [(font, old_bytes)])]\<rparr> \<and>
   caches_match [(''ha-pass-v1'', [])] font = None \<and>
   serving new_bytes font = Fulfilled new_bytes \<and> http_method font = ''GET'' \<and>
   status new_bytes \<noteq> 206 \<and>
   delivered (serving new_bytes) font
     (responded (fetch_listener ''ha-pass-v1'' (serving new_bytes) font [(''ha-pass-v1'', [])])) =
     Fulfilled new_bytes \<and>
   responded (fetch_listener ''ha-pass-v1'' offline font
       (run_fetches ''ha-pass-v1'' [(serving old_bytes, css), (offline, guest_page)]
          (caches_after (fetch_listener ''ha-pass-v1'' (serving new_bytes) font [(''ha-pass-v1'', [])])))) =
     RespondWith (Fulfilled (Some new_bytes)) \<and>
   length (filter is_net_fetch (trace (fetch_listener ''ha-pass-v1'' offline font
       (run_fetches ''ha-pass-v1'' [(serving old_bytes, css), (offline, guest_page)]
          (caches_after (fetch_listener ''ha-pass-v1'' (serving new_bytes) font [(''ha-pass-v1'', [])])))))) = 0"
proof -
  have c: "classify (url font) = CrossOriginCacheable"
    by (simp add: classify_def font_def get_def)
  have m: "caches_match [(''ha-pass-v1'', [(font, old_bytes)])] font = Some old_bytes"
    "caches_match [(''ha-pass-v1'', [])] font = None"
    by (simp_all add: cache_match_def font_def get_def)
  have s: "serving new_bytes font = Fulfilled new_bytes"
    by (simp add: serving_def)
  have g: "http_method font = ''GET''"
    by (simp add: font_def get_def)
  have n: "status new_bytes \<noteq> 206"
    by (simp add: new_bytes_def)
  have hit: "fetch_listener ''ha-pass-v1'' (serving new_bytes) font [(''ha-pass-v1'', [(font, old_bytes)])] =
     \<lparr>responded = RespondWith (Fulfilled (Some old_bytes)),
      trace = [CacheMatch font (Some old_bytes)],
      caches_after = [(''ha-pass-v1'', [(font, old_bytes)])]\<rparr>"
    using c m(1) by (simp add: fetch_listener_strategy cache_first_def Let_def)
  show ?thesis
    using c m s g n hit
      cache_first_fetches_once [OF c, of "[(''ha-pass-v1'', [(font, old_bytes)])]" old_bytes
        "''ha-pass-v1''" "serving new_bytes" offline "[]"]
      cache_first_fetches_once [OF c, of "[(''ha-pass-v1'', [])]" new_bytes
        "''ha-pass-v1''" "serving new_bytes" offline "[(serving old_bytes, css), (offline, guest_page)]"]
    by blast
qed

section \<open>A failed install\<close>

text \<open>
  Claim C1, as stated, fails in one part: the install listener opens the store of the new
  generation before it fetches, and nothing deletes that store when a fetch fails. With
  v1 active and the fetch of \<^verbatim>\<open>/static/util.js\<close> failing, the install of v2 is
  rejected and an empty store named for v2 persists beside the store of v1.
\<close>

theorem install_failure_counterexample:
  "''/static/util.js'' \<in> set SHELL_ASSETS \<and>
   fetch_failed (all_but_util (asset_request ''ha.local'' ''/static/util.js'')) \<and>
   wait_until (install_listener ''ha-pass-v2'' ''ha.local'' all_but_util (reg_caches v1_active)) =
     Rejected \<and>
   reg_caches (update_worker ''ha-pass-v2'' ''ha.local'' all_but_util v1_active) =
     [(''ha-pass-v1'', [(css, old_bytes)]), (''ha-pass-v2'', [])] \<and>
   ''ha-pass-v2'' \<in> set (caches_keys (reg_caches
       (update_worker ''ha-pass-v2'' ''ha.local'' all_but_util v1_active)))"
proof -
  have a: "''/static/util.js'' \<in> set SHELL_ASSETS"
    by (simp add: SHELL_ASSETS_def)
  have f: "fetch_failed (all_but_util (asset_request ''ha.local'' ''/static/util.js''))"
    by (simp add: all_but_util_def asset_request_def)
  have o: "caches_open ''ha-pass-v2'' (reg_caches v1_active) =
      [(''ha-pass-v1'', [(css, old_bytes)]), (''ha-pass-v2'', [])]"
    by (simp add: caches_open_def v1_active_def)
  show ?thesis
    using a f
      install_listener_failed [where p = "''/static/util.js''" and net = all_but_util
        and origin = "''ha.local''" and CV = "''ha-pass-v2''" and st = "reg_caches v1_active"]
      update_worker_failed [where p = "''/static/util.js''" and net = all_but_util
        and origin = "''ha.local''" and CV = "''ha-pass-v2''" and reg = v1_active]
    by (simp add: o caches_keys_def)
qed

text \<open>
  Claim C1, amended. If any shell-asset fetch fails during the install of a new
  generation, the install fails as a whole and adds no entry: CacheStorage afterwards is
  CacheStorage before with the store of the new generation opened (created empty when it
  did not exist, as it was otherwise), every store that existed is untouched, the
  generation that was active remains active, and the fetch listener answers every request
  exactly as it did before the install.
\<close>

theorem failed_install_keeps_previous_generation:
  assumes "p \<in> set SHELL_ASSETS" and "fetch_failed (net (asset_request origin p))"
  shows "wait_until (install_listener CV origin net (reg_caches reg)) = Rejected \<and>
         active (update_worker CV origin net reg) = active reg \<and>
         reg_caches (update_worker CV origin net reg) = caches_open CV (reg_caches reg) \<and>
         (n \<in> set (caches_keys (reg_caches reg)) \<longrightarrow>
            store_of (reg_caches (update_worker CV origin net reg)) n = store_of (reg_caches reg) n) \<and>
         (CV \<notin> set (caches_keys (reg_caches reg)) \<longrightarrow>
            store_of (reg_caches (update_worker CV origin net reg)) CV = Some []) \<and>
         responded (fetch_listener V net' req (reg_caches (update_worker CV origin net reg))) =
           responded (fetch_listener V net' req (reg_caches reg))"
  using assms
  by (simp add: install_listener_failed [where p = p] update_worker_failed [where p = p]
      store_of_caches_open fetch_listener_open_responded)

theorem failed_install_keeps_previous_generation_witness:
  "''/static/util.js'' \<in> set SHELL_ASSETS \<and>
   fetch_failed (all_but_util (asset_request ''ha.local'' ''/static/util.js'')) \<and>
   ''ha-pass-v1'' \<in> set (caches_keys (reg_caches v1_active)) \<and>
   ''ha-pass-v2'' \<notin> set (caches_keys (reg_caches v1_active)) \<and>
   wait_until (install_listener ''ha-pass-v2'' ''ha.local'' all_but_util (reg_caches v1_active)) =
     Rejected \<and>
   active (update_worker ''ha-pass-v2'' ''ha.local'' all_but_util v1_active) = Some ''ha-pass-v1'' \<and>
   store_of (reg_caches (update_worker ''ha-pass-v2'' ''ha.local'' all_but_util v1_active))
     ''ha-pass-v1'' = Some [(css, old_bytes)] \<and>
   store_of (reg_caches (update_worker ''ha-pass-v2'' ''ha.local'' all_but_util v1_active))
     ''ha-pass-v2'' = Some [] \<and>
   responded (fetch_listener ''ha-pass-v1'' offline css
       (reg_caches (update_worker ''ha-pass-v2'' ''ha.local'' all_but_util v1_active))) =
     RespondWith (Fulfilled (Some old_bytes))"
proof -
  have a: "''/static/util.js'' \<in> set SHELL_ASSETS"
    by (simp add: SHELL_ASSETS_def)
  have f: "fetch_failed (all_but_util (asset_request ''ha.local'' ''/static/util.js''))"
    by (simp add: all_but_util_def asset_request_def)
  have k: "''ha-pass-v1'' \<in> set (caches_keys (reg_caches v1_active))"
    "''ha-pass-v2'' \<notin> set (caches_keys (reg_caches v1_active))"
    by (simp_all add: caches_keys_def v1_active_def)
  have v: "active v1_active = Some ''ha-pass-v1''"
    "store_of (reg_caches v1_active) ''ha-pass-v1'' = Some [(css, old_bytes)]"
    by (simp_all add: v1_active_def store_of_def)
  have r: "responded (fetch_listener ''ha-pass-v1'' offline css (reg_caches v1_active)) =
     RespondWith (Fulfilled (Some old_bytes))"
    by (simp add: fetch_listener_strategy classify_def css_def get_def v1_active_def
        stale_while_revalidate_def Let_def cache_match_def)
  show ?thesis
    using a f k v r
      failed_install_keeps_previous_generation [where p = "''/static/util.js''"
        and net = all_but_util and origin = "''ha.local''" and CV = "''ha-pass-v2''"
        and reg = v1_active and n = "''ha-pass-v1''" and V = "''ha-pass-v1''"
        and net' = offline and req = css]
      failed_install_keeps_previous_generation [where p = "''/static/util.js''"
        and net = all_but_util and origin = "''ha.local''" and CV = "''ha-pass-v2''"
        and reg = v1_active and n = "''ha-pass-v2''" and V = "''ha-pass-v1''"
        and net' = offline and req = css]
    by simp
qed

section \<open>Activation\<close>

text \<open>
  Claim C9. Whatever stores exist, activation deletes every store whose name is not that
  of the new active generation and leaves the store of that generation untouched, so when
  that store exists it is the only store left. The install of a generation changes no
  store of another name, and until the install succeeds every store that existed is
  unmodified and the active generation is unchanged; once it succeeds, activation leaves
  the store of the new generation as the sole store and the new generation active.
\<close>

theorem activation_leaves_only_active_store:
  "(n \<noteq> CV \<longrightarrow> store_of (activate_listener CV st) n = None) \<and>
   store_of (activate_listener CV st) CV = store_of st CV \<and>
   (CV \<in> set (caches_keys st) \<longrightarrow> set (caches_keys (activate_listener CV st)) = {CV}) \<and>
   (n \<noteq> CV \<longrightarrow> store_of (ir_caches (install_listener CV origin net st)) n = store_of st n) \<and>
   (wait_until (install_listener CV origin net (reg_caches reg)) \<noteq> Fulfilled () \<and>
    n \<in> set (caches_keys (reg_caches reg)) \<longrightarrow>
      store_of (reg_caches (update_worker CV origin net reg)) n = store_of (reg_caches reg) n \<and>
      active (update_worker CV origin net reg) = active reg) \<and>
   (wait_until (install_listener CV origin net (reg_caches reg)) = Fulfilled () \<longrightarrow>
      set (caches_keys (reg_caches (update_worker CV origin net reg))) = {CV} \<and>
      (n \<noteq> CV \<longrightarrow> store_of (reg_caches (update_worker CV origin net reg)) n = None) \<and>
      store_of (reg_caches (update_worker CV origin net reg)) CV =
        store_of (ir_caches (install_listener CV origin net (reg_caches reg))) CV \<and>
      active (update_worker CV origin net reg) = Some CV)"
proof -
  have sole: "set (caches_keys (activate_listener CV s)) = {CV}" if "CV \<in> set (caches_keys s)" for s
    using that by (auto simp add: keys_activate_listener)
  have opened: "CV \<in> set (caches_keys (ir_caches (install_listener CV origin net (reg_caches reg))))"
    by (simp add: keys_install_listener caches_open_has_key)
  show ?thesis
    using sole [of st] sole [OF opened]
    by (auto simp add: store_of_activate_listener install_listener_other_store
        update_worker_not_installed update_worker_installed install_listener_not_installed
        store_of_caches_open)
qed

theorem activation_leaves_only_active_store_witness:
  "''ha-pass-v1'' \<noteq> ''ha-pass-v2'' \<and>
   ''ha-pass-v2'' \<in> set (caches_keys stale_ahead) \<and>
   store_of (activate_listener ''ha-pass-v2'' stale_ahead) ''ha-pass-v1'' = None \<and>
   store_of (activate_listener ''ha-pass-v2'' stale_ahead) ''ha-pass-v2'' = Some [] \<and>
   set (caches_keys (activate_listener ''ha-pass-v2'' stale_ahead)) = {''ha-pass-v2''} \<and>
   wait_until (install_listener ''ha-pass-v2'' ''ha.local'' all_but_util (reg_caches v1_active)) \<noteq>
     Fulfilled () \<and>
   store_of (reg_caches (update_worker ''ha-pass-v2'' ''ha.local'' all_but_util v1_active))
     ''ha-pass-v1'' = Some [(css, old_bytes)] \<and>
   active (update_worker ''ha-pass-v2'' ''ha.local'' all_but_util v1_active) = Some ''ha-pass-v1'' \<and>
   wait_until (install_listener ''ha-pass-v2'' ''ha.local'' (serving new_bytes) (reg_caches v1_active)) =
     Fulfilled () \<and>
   set (caches_keys (reg_caches (update_worker ''ha-pass-v2'' ''ha.local'' (serving new_bytes) v1_active))) =
     {''ha-pass-v2''} \<and>
   store_of (reg_caches (update_worker ''ha-pass-v2'' ''ha.local'' (serving new_bytes) v1_active))
     ''ha-pass-v1'' = None \<and>
   active (update_worker ''ha-pass-v2'' ''ha.local'' (serving new_bytes) v1_active) = Some ''ha-pass-v2''"
proof -
  have d: "''ha-pass-v1'' \<noteq> ''ha-pass-v2''" by simp
  have k: "''ha-pass-v2'' \<in> set (caches_keys stale_ahead)"
    "''ha-pass-v1'' \<in> set (caches_keys (reg_caches v1_active))"
    by (simp_all add: caches_keys_def stale_ahead_def v1_active_def)
  have s: "store_of stale_ahead ''ha-pass-v2'' = Some []"
    by (simp add: store_of_def stale_ahead_def)
  have v: "active v1_active = Some ''ha-pass-v1''"
    "store_of (reg_caches v1_active) ''ha-pass-v1'' = Some [(css, old_bytes)]"
    by (simp_all add: v1_active_def store_of_def)
  have bad: "wait_until (install_listener ''ha-pass-v2'' ''ha.local'' all_but_util (reg_caches v1_active)) \<noteq>
     Fulfilled ()"
    by (simp add: install_listener_def cache_addAll_def Let_def SHELL_ASSETS_def
        all_but_util_def asset_request_def)
  have good: "wait_until (install_listener ''ha-pass-v2'' ''ha.local'' (serving new_bytes) (reg_caches v1_active)) =
     Fulfilled ()"
    by (simp add: install_listener_def cache_addAll_def Let_def SHELL_ASSETS_def
        serving_def new_bytes_def ok_def)
  show ?thesis
    using d k s v bad good
      activation_leaves_only_active_store [of "''ha-pass-v1''" "''ha-pass-v2''" stale_ahead
        "''ha.local''" all_but_util v1_active]
      activation_leaves_only_active_store [of "''ha-pass-v1''" "''ha-pass-v2''" stale_ahead
        "''ha.local''" "serving new_bytes" v1_active]
    by simp
qed

end
